theory Spec2Isabelle
  imports Complex_Main
begin

section \<open>Backend: \<^verbatim>\<open>app.service.ts\<close> and \<^verbatim>\<open>app.controller.ts\<close>\<close>

text \<open>
  The service reads four ambient facts of the running process and nothing else:
  the wall clock (\<^verbatim>\<open>new Date()\<close>), the uptime counter (\<^verbatim>\<open>process.uptime()\<close>),
  the environment variable \<^verbatim>\<open>process.env.NODE_ENV\<close> and \<^verbatim>\<open>process.version\<close>.
  They are the fields of one record that every method takes as its argument.
  An instant is a count of milliseconds since the epoch, as the time value of a
  JavaScript \<^verbatim>\<open>Date\<close> is. A JavaScript number is modelled as the real number it
  denotes: the finite, non-NaN values. An environment variable is either unset
  (\<^verbatim>\<open>undefined\<close>, here \<open>None\<close>) or a string, possibly the empty one.
\<close>

type_synonym instant = int

record process =
  clock :: instant
  process_uptime :: real
  NODE_ENV :: "string option"
  process_version :: string

subsection \<open>The runtime's \<^verbatim>\<open>Date\<close>\<close>

text \<open>
  A \<^verbatim>\<open>Date\<close> object holds a time value or NaN (an invalid date, \<open>None\<close>).
  \<^verbatim>\<open>new Date()\<close> always holds the current time value.
  \<^verbatim>\<open>toISOString\<close> throws a \<^verbatim>\<open>RangeError\<close> on an invalid date and renders the
  instant as ISO-8601 text otherwise. The text is kept as the instant it denotes,
  wrapped in \<open>ISO_8601\<close>: the rendering is the runtime's, not this repository's.
\<close>

datatype js_date = Date "instant option"

datatype iso_8601 = ISO_8601 (instant_of: instant)

datatype js_error = RangeError

definition new_Date :: "process \<Rightarrow> js_date" where
  "new_Date p = Date (Some (clock p))"

fun toISOString :: "js_date \<Rightarrow> js_error + iso_8601" where
  "toISOString (Date None) = Inl RangeError"
| "toISOString (Date (Some t)) = Inr (ISO_8601 t)"

subsection \<open>The operator \<^verbatim>\<open>||\<close> on a string that may be undefined\<close>

text \<open>
  \<^verbatim>\<open>a || b\<close> is \<^verbatim>\<open>b\<close> when \<^verbatim>\<open>a\<close> is falsy, and \<^verbatim>\<open>a\<close> otherwise. Of the values an
  environment variable can have, \<^verbatim>\<open>undefined\<close> and the empty string are the falsy ones.
\<close>

fun js_or :: "string option \<Rightarrow> string \<Rightarrow> string" where
  "js_or None d = d"
| "js_or (Some s) d = (if s = [] then d else s)"

subsection \<open>\<^verbatim>\<open>AppService\<close>\<close>

record HealthSnapshot =
  status :: string
  timestamp :: iso_8601
  uptime :: real

record InfoData =
  name :: string
  version :: string
  environment :: string
  nodeVersion :: string

definition getHello :: "process \<Rightarrow> string" where
  "getHello p = ''Hello from NestJS Backend!''"

definition getHealth :: "process \<Rightarrow> js_error + HealthSnapshot" where
  "getHealth p =
     (case toISOString (new_Date p) of
        Inl e \<Rightarrow> Inl e
      | Inr ts \<Rightarrow>
          Inr \<lparr>status = ''ok'', timestamp = ts, uptime = process_uptime p\<rparr>)"

definition getInfo :: "process \<Rightarrow> InfoData" where
  "getInfo p =
     \<lparr>name = ''K8s CI/CD Lab Backend'',
      version = ''1.0.0'',
      environment = js_or (NODE_ENV p) ''development'',
      nodeVersion = process_version p\<rparr>"

subsection \<open>\<^verbatim>\<open>AppController\<close>: the three read endpoints\<close>

text \<open>
  Each route handler hands the call to the service method of the same name:
  \<^verbatim>\<open>GET /api\<close>, \<^verbatim>\<open>GET /api/health\<close> and \<^verbatim>\<open>GET /api/info\<close>.
\<close>

definition AppController_getHello :: "process \<Rightarrow> string" where
  "AppController_getHello p = getHello p"

definition AppController_getHealth :: "process \<Rightarrow> js_error + HealthSnapshot" where
  "AppController_getHealth p = getHealth p"

definition AppController_getInfo :: "process \<Rightarrow> InfoData" where
  "AppController_getInfo p = getInfo p"

section \<open>Frontend: the dashboard component \<^verbatim>\<open>App\<close>\<close>

subsection \<open>Data held by the component\<close>

text \<open>
  \<^verbatim>\<open>interface HealthData\<close> is the health snapshot as it arrives over the wire, with the
  timestamp as text. \<^verbatim>\<open>interface InfoData\<close> has the fields of the object that
  \<open>getInfo\<close> builds, all strings, so the record \<open>InfoData\<close> above serves both sides.
  The six \<^verbatim>\<open>useState\<close> cells of the component are the fields of \<open>ViewState\<close>;
  \<^verbatim>\<open>null\<close> is \<open>None\<close>.
\<close>

record HealthData =
  status :: string
  timestamp :: string
  uptime :: real

record ViewState =
  health :: "HealthData option"
  info :: "InfoData option"
  message :: string
  loading :: bool
  error :: "string option"
  lastRefresh :: instant

subsection \<open>Thrown values, promises and responses\<close>

text \<open>
  A thrown value is an \<^verbatim>\<open>Error\<close> object (of any subclass: the \<^verbatim>\<open>TypeError\<close> of a
  failed \<^verbatim>\<open>fetch\<close>, the \<^verbatim>\<open>SyntaxError\<close> of a body that is not JSON) with its
  \<^verbatim>\<open>message\<close>, or a value that is not an instance of \<^verbatim>\<open>Error\<close>.

  A promise never settles, is fulfilled with a value, or is rejected with a thrown
  value. A rejection carries its position in the order in which the event loop
  delivers rejections (smaller is earlier): \<^verbatim>\<open>Promise.all\<close> rejects with the reason of
  the input that rejects first.

  A \<^verbatim>\<open>Response\<close> has the flag \<^verbatim>\<open>ok\<close> (a success status) and the promises that
  \<^verbatim>\<open>json()\<close> and \<^verbatim>\<open>text()\<close> return. \<^verbatim>\<open>json()\<close> is typed \<^verbatim>\<open>any\<close>; its value goes
  unchecked into a state cell, so it is given the type of that cell.
\<close>

datatype thrown = Error_instance string | Not_an_Error

datatype 'a promise = Pending | Fulfilled 'a | Rejected nat thrown

record 'j response =
  ok :: bool
  json :: "'j promise"
  text_body :: "string promise"

text \<open>
  The result of running a piece of an \<^verbatim>\<open>async\<close> function: it completes normally with
  a value, it throws, or it stays suspended at an \<^verbatim>\<open>await\<close> for ever.
\<close>

datatype 'a completion = Normal 'a | Throw thrown | Suspended

fun await :: "'a promise \<Rightarrow> 'a completion" where
  "await Pending = Suspended"
| "await (Fulfilled x) = Normal x"
| "await (Rejected t v) = Throw v"

fun rejection :: "'a promise \<Rightarrow> (nat \<times> thrown) option" where
  "rejection (Rejected t v) = Some (t, v)"
| "rejection _ = None"

fun earlier :: "(nat \<times> thrown) option \<Rightarrow> (nat \<times> thrown) option \<Rightarrow> (nat \<times> thrown) option" where
  "earlier None y = y"
| "earlier (Some x) None = Some x"
| "earlier (Some (t, v)) (Some (u, w)) = (if u < t then Some (u, w) else Some (t, v))"

definition Promise_all ::
  "'a promise \<Rightarrow> 'b promise \<Rightarrow> 'c promise \<Rightarrow> ('a \<times> 'b \<times> 'c) promise" where
  "Promise_all p1 p2 p3 =
     (case earlier (rejection p1) (earlier (rejection p2) (rejection p3)) of
        Some (t, v) \<Rightarrow> Rejected t v
      | None \<Rightarrow>
          (case (p1, p2, p3) of
             (Fulfilled a, Fulfilled b, Fulfilled c) \<Rightarrow> Fulfilled (a, b, c)
           | _ \<Rightarrow> Pending))"

subsection \<open>Statements of an \<^verbatim>\<open>async\<close> function over the view state\<close>

type_synonym 'a async = "ViewState \<Rightarrow> 'a completion \<times> ViewState"

definition done_with :: "'a \<Rightarrow> 'a async" where
  "done_with x = (\<lambda>s. (Normal x, s))"

definition throw :: "thrown \<Rightarrow> 'a async" where
  "throw v = (\<lambda>s. (Throw v, s))"

text \<open>
  An \<^verbatim>\<open>await\<close> hands control back to the event loop. Until the function resumes,
  other callbacks of the page (another cycle started by the timer, its continuation)
  run and may write the cells; the function resumes in the state they leave. What
  they do to the state during one \<^verbatim>\<open>await\<close> is the first argument of \<open>awaiting\<close>.
\<close>

definition awaiting :: "(ViewState \<Rightarrow> ViewState) \<Rightarrow> 'a promise \<Rightarrow> 'a async" where
  "awaiting meanwhile p = (\<lambda>s. (await p, meanwhile s))"

definition and_then :: "'a async \<Rightarrow> ('a \<Rightarrow> 'b async) \<Rightarrow> 'b async" where
  "and_then m f =
     (\<lambda>s. case m s of
        (Normal x, s') \<Rightarrow> f x s'
      | (Throw v, s') \<Rightarrow> (Throw v, s')
      | (Suspended, s') \<Rightarrow> (Suspended, s'))"

definition try_catch :: "'a async \<Rightarrow> (thrown \<Rightarrow> 'a async) \<Rightarrow> 'a async" where
  "try_catch m h =
     (\<lambda>s. case m s of
        (Throw v, s') \<Rightarrow> h v s'
      | (c, s') \<Rightarrow> (c, s'))"

text \<open>
  \<^verbatim>\<open>finally\<close>: the block runs once the protected statement has completed, normally or
  by a throw, and the statement's completion stands unless the block itself throws
  or suspends.
\<close>

definition try_finally :: "'a async \<Rightarrow> unit async \<Rightarrow> 'a async" where
  "try_finally m f =
     (\<lambda>s. case m s of
        (Suspended, s') \<Rightarrow> (Suspended, s')
      | (c, s') \<Rightarrow>
          (case f s' of
             (Normal u, s'') \<Rightarrow> (c, s'')
           | (Throw v, s'') \<Rightarrow> (Throw v, s'')
           | (Suspended, s'') \<Rightarrow> (Suspended, s'')))"

definition setHealth :: "HealthData option \<Rightarrow> unit async" where
  "setHealth v = (\<lambda>s. (Normal (), s\<lparr>health := v\<rparr>))"

definition setInfo :: "InfoData option \<Rightarrow> unit async" where
  "setInfo v = (\<lambda>s. (Normal (), s\<lparr>info := v\<rparr>))"

definition setMessage :: "string \<Rightarrow> unit async" where
  "setMessage v = (\<lambda>s. (Normal (), s\<lparr>message := v\<rparr>))"

definition setLoading :: "bool \<Rightarrow> unit async" where
  "setLoading v = (\<lambda>s. (Normal (), s\<lparr>loading := v\<rparr>))"

definition setError :: "string option \<Rightarrow> unit async" where
  "setError v = (\<lambda>s. (Normal (), s\<lparr>error := v\<rparr>))"

definition setLastRefresh :: "instant \<Rightarrow> unit async" where
  "setLastRefresh v = (\<lambda>s. (Normal (), s\<lparr>lastRefresh := v\<rparr>))"

subsection \<open>\<^verbatim>\<open>fetchData\<close>: one refresh cycle\<close>

text \<open>
  What the browser supplies to one cycle: the promises that the three calls of
  \<^verbatim>\<open>fetch\<close> return (for \<^verbatim>\<open>/api/health\<close>, \<^verbatim>\<open>/api/info\<close> and \<^verbatim>\<open>/api\<close>) and the
  instant that \<^verbatim>\<open>new Date()\<close> reads after the bodies have arrived.

  A cycle has four \<^verbatim>\<open>await\<close>s, numbered 0 to 3 in the order of the source (lines 32,
  42, 43 and 44). Nothing keeps a second cycle from starting while the first one
  waits: \<^verbatim>\<open>setInterval\<close> calls \<open>fetchData\<close> every 30 seconds whether or not a cycle
  is in flight. The argument \<open>others\<close> of a cycle gives, for each \<^verbatim>\<open>await\<close>, what the
  other callbacks do to the state while the cycle is suspended there; the cycle
  \<open>undisturbed\<close> is the one that no other callback overlaps.
\<close>

type_synonym others = "nat \<Rightarrow> ViewState \<Rightarrow> ViewState"

definition undisturbed :: others where
  "undisturbed k s = s"

record browser =
  fetch_api_health :: "HealthData option response promise"
  fetch_api_info :: "InfoData option response promise"
  fetch_api :: "unit response promise"
  date_now :: instant

definition fetchData_try :: "browser \<Rightarrow> others \<Rightarrow> unit async" where
  "fetchData_try b others =
     and_then (awaiting (others 0)
                 (Promise_all (fetch_api_health b) (fetch_api_info b) (fetch_api b)))
       (\<lambda>(healthRes, infoRes, messageRes).
     and_then (if \<not> ok healthRes \<or> \<not> ok infoRes \<or> \<not> ok messageRes
               then throw (Error_instance ''Failed to fetch data from backend'')
               else done_with ())
       (\<lambda>_.
     and_then (awaiting (others 1) (json healthRes)) (\<lambda>healthData.
     and_then (awaiting (others 2) (json infoRes)) (\<lambda>infoData.
     and_then (awaiting (others 3) (text_body messageRes)) (\<lambda>messageData.
     and_then (setHealth healthData) (\<lambda>_.
     and_then (setInfo infoData) (\<lambda>_.
     and_then (setMessage messageData) (\<lambda>_.
     setLastRefresh (date_now b)))))))))"

fun error_text :: "thrown \<Rightarrow> string" where
  "error_text (Error_instance msg) = msg"
| "error_text Not_an_Error = ''Unknown error occurred''"

definition fetchData_catch :: "thrown \<Rightarrow> unit async" where
  "fetchData_catch err = setError (Some (error_text err))"

definition fetchData_finally :: "unit async" where
  "fetchData_finally = setLoading False"

definition fetchData :: "browser \<Rightarrow> others \<Rightarrow> unit async" where
  "fetchData b others =
     and_then (setLoading True) (\<lambda>_.
     and_then (setError None) (\<lambda>_.
     try_finally (try_catch (fetchData_try b others) fetchData_catch) fetchData_finally))"

subsection \<open>Numbers\<close>

text \<open>
  A JavaScript number is an IEEE 754 double. The finite ones are modelled as the real
  numbers they denote: a real \<open>x\<close> is a double when \<open>to_double x = x\<close>. A quotient is
  the exact quotient rounded to the nearest double, ties to the even mantissa:
  53 significant bits, the unit in the last place never below \<open>2\<^sup>-\<^sup>1\<^sup>0\<^sup>7\<^sup>4\<close>. The
  quotients of this program divide a finite double by 3600 or by 60 and cannot
  overflow, so the largest exponent needs no clause.

  \<open>bit_length n\<close> is the number of binary digits of a positive integer, and
  \<open>ilog2 x\<close> the integer part of the binary logarithm of a positive real.
\<close>

function bit_length :: "int \<Rightarrow> nat" where
  "bit_length n = (if n \<le> 0 then 0 else Suc (bit_length (n div 2)))"
  by pat_completeness auto
termination
  by (relation "measure nat") auto

declare bit_length.simps [simp del]

definition ilog2 :: "real \<Rightarrow> int" where
  "ilog2 x =
     (if 1 \<le> x then int (bit_length \<lfloor>x\<rfloor>) - 1 else - int (bit_length (\<lceil>1 / x\<rceil> - 1)))"

definition round_half_even :: "real \<Rightarrow> int" where
  "round_half_even r =
     (let f = \<lfloor>r\<rfloor>; d = r - of_int f
      in if d < 1 / 2 then f else if 1 / 2 < d then f + 1 else if even f then f else f + 1)"

definition ulp :: "real \<Rightarrow> real" where
  "ulp x = 2 powi (max (ilog2 \<bar>x\<bar> - 52) (- 1074))"

definition to_double :: "real \<Rightarrow> real" where
  "to_double x = (if x = 0 then 0 else ulp x * of_int (round_half_even (x / ulp x)))"

text \<open>
  \<^verbatim>\<open>/\<close> rounds. \<^verbatim>\<open>%\<close> is the remainder of the truncated quotient, with the sign of
  the dividend; the remainder of two doubles is a double, so it is exact. Both uses of
  either operator have a non-zero constant divisor. \<^verbatim>\<open>Math.floor\<close> yields an integral
  number, kept as an \<open>int\<close>.
\<close>

definition js_div :: "real \<Rightarrow> real \<Rightarrow> real" where
  "js_div x y = to_double (x / y)"

definition Math_floor :: "real \<Rightarrow> int" where
  "Math_floor x = \<lfloor>x\<rfloor>"

definition js_trunc :: "real \<Rightarrow> int" where
  "js_trunc x = (if 0 \<le> x then \<lfloor>x\<rfloor> else \<lceil>x\<rceil>)"

definition js_rem :: "real \<Rightarrow> real \<Rightarrow> real" where
  "js_rem x y = x - y * of_int (js_trunc (x / y))"

subsection \<open>\<^verbatim>\<open>Number::toString\<close> on an integral number\<close>

text \<open>
  A template literal converts a number with \<^verbatim>\<open>Number::toString\<close>. Of all decimal
  numerals that round to the number it prints one with the fewest significant
  digits, the closest to the number among those, and the one with an even last digit
  among two equally close. Below \<open>2\<^sup>5\<^sup>3\<close> that is the integer's own numeral; above,
  it may end in zeros where the integer does not. From \<open>10\<^sup>2\<^sup>1\<close> on the numeral is
  printed with an exponent. Every number printed by this program is the result of
  \<^verbatim>\<open>Math.floor\<close>, an integral double.

  \<open>shortest_from z i\<close> looks for a multiple of \<open>10\<^sup>z\<close> that rounds to \<open>i\<close>, then of
  \<open>10\<^sup>z\<^sup>-\<^sup>1\<close>, and so on down to \<open>i\<close> itself; only the two multiples next to \<open>i\<close>
  can be the closest.
\<close>

definition digit :: "int \<Rightarrow> char" where
  "digit d = ''0123456789'' ! nat d"

function decimal :: "int \<Rightarrow> string" where
  "decimal n = (if n < 10 then [digit n] else decimal (n div 10) @ [digit (n mod 10)])"
  by pat_completeness auto
termination
  by (relation "measure nat") auto

declare decimal.simps [simp del]

definition rounds_to :: "int \<Rightarrow> int \<Rightarrow> bool" where
  "rounds_to S i \<longleftrightarrow> to_double (of_int S) = of_int i"

fun shortest_from :: "nat \<Rightarrow> int \<Rightarrow> int" where
  "shortest_from 0 i = i"
| "shortest_from (Suc z) i =
     (let p = 10 ^ Suc z; lo = i div p * p; hi = lo + p;
          lo_ok = (0 < lo \<and> rounds_to lo i); hi_ok = rounds_to hi i
      in if lo_ok \<and> hi_ok
         then (if i - lo < hi - i then lo
               else if hi - i < i - lo then hi
               else if even (lo div p) then lo else hi)
         else if lo_ok then lo
         else if hi_ok then hi
         else shortest_from z i)"

definition shortest :: "int \<Rightarrow> int" where
  "shortest i = shortest_from (length (decimal i)) i"

definition exponent_form :: "int \<Rightarrow> string" where
  "exponent_form S =
     (let ds = decimal S;
          significant = rev (dropWhile (\<lambda>c. c = CHR ''0'') (rev ds));
          mantissa = (case significant of
                        [] \<Rightarrow> []
                      | d # rest \<Rightarrow> if rest = [] then [d] else d # CHR ''.'' # rest)
      in mantissa @ ''e+'' @ decimal (int (length ds) - 1))"

definition unsigned_toString :: "int \<Rightarrow> string" where
  "unsigned_toString i =
     (if i = 0 then ''0''
      else let S = shortest i in if S < 10 ^ 21 then decimal S else exponent_form S)"

definition Number_toString :: "int \<Rightarrow> string" where
  "Number_toString i =
     (if i < 0 then CHR ''-'' # unsigned_toString (- i) else unsigned_toString i)"

subsection \<open>\<^verbatim>\<open>formatUptime\<close>\<close>

definition formatUptime :: "real \<Rightarrow> string" where
  "formatUptime seconds =
     (let hours = Math_floor (js_div seconds 3600);
          minutes = Math_floor (js_div (js_rem seconds 3600) 60);
          secs = Math_floor (js_rem seconds 60)
      in Number_toString hours @ ''h '' @ Number_toString minutes @ ''m '' @
         Number_toString secs @ ''s'')"

section \<open>Sample data\<close>

text \<open>
  Concrete inputs on which the theorems below are instantiated: a process, a view
  state that already shows data, and what the browser can hand to one cycle (every
  request answered with success, the info endpoint answering with a failure status,
  the network down, a body that is not JSON, a request that never returns), and a
  cycle that overlaps another.
\<close>

definition sample_process :: process where
  "sample_process =
     \<lparr>clock = 1704067200000, process_uptime = 12.5, NODE_ENV = Some ''production'',
      process_version = ''v20.11.0''\<rparr>"

definition sample_process_later :: process where
  "sample_process_later =
     \<lparr>clock = 1704067230000, process_uptime = 42.5, NODE_ENV = Some ''production'',
      process_version = ''v20.11.0''\<rparr>"

definition sample_health :: HealthData where
  "sample_health =
     \<lparr>HealthData.status = ''ok'', timestamp = ''2024-01-01T00:00:00Z'', uptime = 5\<rparr>"

definition sample_info :: InfoData where
  "sample_info =
     \<lparr>name = ''X'', version = ''1.0.0'', environment = ''dev'', nodeVersion = ''v20''\<rparr>"

definition sample_state :: ViewState where
  "sample_state =
     \<lparr>health = None, info = Some sample_info, message = ''old'', loading = False,
      error = Some ''stale'', lastRefresh = 1000\<rparr>"

definition health_response :: "HealthData option response" where
  "health_response = \<lparr>ok = True, json = Fulfilled (Some sample_health), text_body = Pending\<rparr>"

definition info_response :: "InfoData option response" where
  "info_response = \<lparr>ok = True, json = Fulfilled (Some sample_info), text_body = Pending\<rparr>"

definition info_response_failed :: "InfoData option response" where
  "info_response_failed = \<lparr>ok = False, json = Fulfilled None, text_body = Pending\<rparr>"

definition info_response_malformed :: "InfoData option response" where
  "info_response_malformed =
     \<lparr>ok = True,
      json = Rejected 0 (Error_instance ''Unexpected token < in JSON at position 0''),
      text_body = Pending\<rparr>"

definition message_response :: "unit response" where
  "message_response = \<lparr>ok = True, json = Pending, text_body = Fulfilled ''hi''\<rparr>"

definition browser_ok :: browser where
  "browser_ok =
     \<lparr>fetch_api_health = Fulfilled health_response, fetch_api_info = Fulfilled info_response,
      fetch_api = Fulfilled message_response, date_now = 2000\<rparr>"

definition browser_info_failed :: browser where
  "browser_info_failed =
     \<lparr>fetch_api_health = Fulfilled health_response,
      fetch_api_info = Fulfilled info_response_failed,
      fetch_api = Fulfilled message_response, date_now = 2000\<rparr>"

definition browser_network_down :: browser where
  "browser_network_down =
     \<lparr>fetch_api_health = Rejected 0 (Error_instance ''Failed to fetch''),
      fetch_api_info = Rejected 1 (Error_instance ''Failed to fetch''),
      fetch_api = Rejected 2 (Error_instance ''Failed to fetch''), date_now = 2000\<rparr>"

definition browser_malformed :: browser where
  "browser_malformed =
     \<lparr>fetch_api_health = Fulfilled health_response,
      fetch_api_info = Fulfilled info_response_malformed,
      fetch_api = Fulfilled message_response, date_now = 2000\<rparr>"

definition browser_hung :: browser where
  "browser_hung =
     \<lparr>fetch_api_health = Fulfilled health_response, fetch_api_info = Pending,
      fetch_api = Fulfilled message_response, date_now = 2000\<rparr>"

text \<open>
  A second cycle, with the answers \<open>b'\<close>, starts and ends while the first one waits
  for its three responses, and nothing else happens during the other \<^verbatim>\<open>await\<close>s.
\<close>

definition overlapped_by :: "browser \<Rightarrow> others" where
  "overlapped_by b' k s = (if k = 0 then snd (fetchData b' undisturbed s) else s)"

section \<open>Auxiliary facts\<close>

subsection \<open>Running the statements of a cycle\<close>

lemmas async_defs = done_with_def throw_def awaiting_def and_then_def try_catch_def
  try_finally_def setHealth_def setInfo_def setMessage_def setLoading_def setError_def
  setLastRefresh_def

lemma await_Suspended: "await p = Suspended \<longleftrightarrow> p = Pending"
  by (cases p) simp_all

lemma Promise_all_Fulfilled:
  "Promise_all (Fulfilled a) (Fulfilled b) (Fulfilled c) = Fulfilled (a, b, c)"
  by (simp add: Promise_all_def)

text \<open>
  The state in which a cycle resumes after its \<open>k\<close>-th \<^verbatim>\<open>await\<close>: what the other
  callbacks have made, one \<^verbatim>\<open>await\<close> after the other, of the state in which the
  \<^verbatim>\<open>try\<close> block started.
\<close>

lemma fetchData_try_found:
  "fst (fetchData_try b others s) \<noteq> Normal () \<Longrightarrow>
   snd (fetchData_try b others s) \<in>
     {others 0 s, others 1 (others 0 s), others 2 (others 1 (others 0 s)),
      others 3 (others 2 (others 1 (others 0 s)))}"
  by (cases "Promise_all (fetch_api_health b) (fetch_api_info b) (fetch_api b)")
     (auto simp add: fetchData_try_def async_defs
        split: prod.splits completion.splits promise.splits)

text \<open>
  Every setter of the \<^verbatim>\<open>try\<close> block comes after its last \<^verbatim>\<open>await\<close> and after the
  status check: a block that does not run to its end has itself changed nothing.
\<close>

lemma fetchData_try_state:
  "fst (fetchData_try b undisturbed s) \<noteq> Normal () \<Longrightarrow>
   snd (fetchData_try b undisturbed s) = s"
  using fetchData_try_found [of b undisturbed s] by (simp add: undisturbed_def)

lemma fetchData_try_not_ok:
  assumes "fetch_api_health b = Fulfilled healthRes"
    and "fetch_api_info b = Fulfilled infoRes"
    and "fetch_api b = Fulfilled messageRes"
    and "\<not> ok healthRes \<or> \<not> ok infoRes \<or> \<not> ok messageRes"
  shows "fetchData_try b others s =
    (Throw (Error_instance ''Failed to fetch data from backend''), others 0 s)"
  using assms by (auto simp add: fetchData_try_def async_defs Promise_all_Fulfilled)

lemma fetchData_try_ok:
  assumes "fetch_api_health b = Fulfilled healthRes"
    and "fetch_api_info b = Fulfilled infoRes"
    and "fetch_api b = Fulfilled messageRes"
    and "ok healthRes" and "ok infoRes" and "ok messageRes"
    and "json healthRes = Fulfilled healthData"
    and "json infoRes = Fulfilled infoData"
    and "text_body messageRes = Fulfilled messageData"
  shows "fetchData_try b others s =
    (Normal (),
     (others 3 (others 2 (others 1 (others 0 s))))
       \<lparr>health := healthData, info := infoData, message := messageData,
        lastRefresh := date_now b\<rparr>)"
  using assms by (simp add: fetchData_try_def async_defs Promise_all_Fulfilled)

text \<open>
  Whether and how the \<^verbatim>\<open>try\<close> block completes depends on the promises alone, not
  on what the other callbacks write.
\<close>

lemma fetchData_try_completion:
  "fst (fetchData_try b others s) = fst (fetchData_try b others' s')"
  by (cases "Promise_all (fetch_api_health b) (fetch_api_info b) (fetch_api b)")
     (auto simp add: fetchData_try_def async_defs
        split: prod.splits completion.splits promise.splits)

text \<open>A \<^verbatim>\<open>try\<close> block stays suspended only at a promise that never settles.\<close>

lemma fetchData_try_settles:
  assumes "fetch_api_health b \<noteq> Pending" and "fetch_api_info b \<noteq> Pending"
    and "fetch_api b \<noteq> Pending"
    and "\<forall>r. fetch_api_health b = Fulfilled r \<longrightarrow> json r \<noteq> Pending"
    and "\<forall>r. fetch_api_info b = Fulfilled r \<longrightarrow> json r \<noteq> Pending"
    and "\<forall>r. fetch_api b = Fulfilled r \<longrightarrow> text_body r \<noteq> Pending"
  shows "fst (fetchData_try b others s) \<noteq> Suspended"
  using assms
  by (cases "fetch_api_health b"; cases "fetch_api_info b"; cases "fetch_api b")
     (auto simp add: fetchData_try_def async_defs Promise_all_def await_Suspended
        split: prod.splits completion.splits promise.splits option.splits if_splits)

lemma fetchData_unfold:
  "fetchData b others s =
     try_finally (try_catch (fetchData_try b others) fetchData_catch) fetchData_finally
       (s\<lparr>loading := True, error := None\<rparr>)"
  by (simp add: fetchData_def and_then_def setLoading_def setError_def)

lemma fetchData_cases:
  "fetchData b others s =
    (case fetchData_try b others (s\<lparr>loading := True, error := None\<rparr>) of
       (Normal u, s') \<Rightarrow> (Normal (), s'\<lparr>loading := False\<rparr>)
     | (Throw v, s') \<Rightarrow> (Normal (), s'\<lparr>error := Some (error_text v), loading := False\<rparr>)
     | (Suspended, s') \<Rightarrow> (Suspended, s'))"
  by (simp add: fetchData_unfold try_finally_def try_catch_def fetchData_catch_def
      fetchData_finally_def setError_def setLoading_def
      split: prod.splits completion.splits)

lemma fetchData_of_throw:
  assumes "fst (fetchData_try b others (s\<lparr>loading := True, error := None\<rparr>)) = Throw v"
  shows "fetchData b others s =
    (Normal (),
     (snd (fetchData_try b others (s\<lparr>loading := True, error := None\<rparr>)))
       \<lparr>error := Some (error_text v), loading := False\<rparr>)"
  using assms
  by (cases "fetchData_try b others (s\<lparr>loading := True, error := None\<rparr>)")
     (simp add: fetchData_cases)

lemma fetchData_of_throw_undisturbed:
  assumes "fst (fetchData_try b undisturbed (s\<lparr>loading := True, error := None\<rparr>)) = Throw v"
  shows "fetchData b undisturbed s =
    (Normal (), s\<lparr>loading := False, error := Some (error_text v)\<rparr>)"
proof -
  let ?s0 = "s\<lparr>loading := True, error := None\<rparr>"
  have "snd (fetchData_try b undisturbed ?s0) = ?s0"
    using assms fetchData_try_state [of b ?s0] by simp
  then show ?thesis
    using fetchData_of_throw [OF assms] by simp
qed

lemma fetchData_of_suspended:
  assumes "fst (fetchData_try b others (s\<lparr>loading := True, error := None\<rparr>)) = Suspended"
  shows "fetchData b others s =
    (Suspended, snd (fetchData_try b others (s\<lparr>loading := True, error := None\<rparr>)))"
  using assms
  by (cases "fetchData_try b others (s\<lparr>loading := True, error := None\<rparr>)")
     (simp add: fetchData_cases)

lemma fetchData_of_suspended_undisturbed:
  assumes "fst (fetchData_try b undisturbed (s\<lparr>loading := True, error := None\<rparr>)) = Suspended"
  shows "fetchData b undisturbed s = (Suspended, s\<lparr>loading := True, error := None\<rparr>)"
proof -
  let ?s0 = "s\<lparr>loading := True, error := None\<rparr>"
  have "snd (fetchData_try b undisturbed ?s0) = ?s0"
    using assms fetchData_try_state [of b ?s0] by simp
  then show ?thesis
    using fetchData_of_suspended [OF assms] by simp
qed

lemma fetchData_of_ended:
  assumes "fst (fetchData_try b others (s\<lparr>loading := True, error := None\<rparr>)) \<noteq> Suspended"
  shows "fst (fetchData b others s) = Normal () \<and> loading (snd (fetchData b others s)) = False"
  using assms
  by (cases "fetchData_try b others (s\<lparr>loading := True, error := None\<rparr>)";
      cases "fst (fetchData_try b others (s\<lparr>loading := True, error := None\<rparr>))")
     (simp_all add: fetchData_cases)

subsection \<open>Rounding to a double\<close>

lemma bit_length_bounds:
  "0 < n \<Longrightarrow> 2 ^ (bit_length n - 1) \<le> n \<and> n < 2 ^ bit_length n"
proof (induction n rule: bit_length.induct)
  case (1 n)
  show ?case
  proof (cases "n = 1")
    case True
    have "bit_length 1 = 1"
      by (simp add: bit_length.simps [of 1] bit_length.simps [of 0])
    with True show ?thesis by simp
  next
    case False
    with "1.prems" have m: "0 < n div 2" by simp
    from "1.prems" have "\<not> n \<le> 0" by simp
    from "1.IH" [OF this m]
    have ih: "2 ^ (bit_length (n div 2) - 1) \<le> n div 2" "n div 2 < 2 ^ bit_length (n div 2)"
      by simp_all
    have pos: "0 < bit_length (n div 2)"
      using m by (simp add: bit_length.simps [of "n div 2"])
    have bl: "bit_length n = Suc (bit_length (n div 2))"
      using "1.prems" by (simp add: bit_length.simps [of n])
    have "(2::int) ^ bit_length (n div 2) = 2 * 2 ^ (bit_length (n div 2) - 1)"
      using pos by (cases "bit_length (n div 2)") simp_all
    then have lo: "2 ^ bit_length (n div 2) \<le> n"
      using ih(1) by linarith
    have hi: "n < 2 * 2 ^ bit_length (n div 2)"
      using ih(2) by linarith
    show ?thesis
      using lo hi by (simp add: bl)
  qed
qed

lemma bit_length_pos: "0 < n \<Longrightarrow> 0 < bit_length n"
  by (simp add: bit_length.simps [of n])

lemma ilog2_bounds:
  assumes "0 < x"
  shows "2 powi (ilog2 x) \<le> x \<and> x < 2 powi (ilog2 x + 1)"
proof (cases "1 \<le> x")
  case True
  let ?N = "\<lfloor>x\<rfloor>"
  let ?b = "bit_length ?N"
  have N: "0 < ?N" using True by simp
  have b: "0 < ?b" using N by (rule bit_length_pos)
  have bb: "2 ^ (?b - 1) \<le> ?N" "?N < 2 ^ ?b"
    using bit_length_bounds [OF N] by simp_all
  have il: "ilog2 x = int ?b - 1"
    using True by (simp add: ilog2_def)
  have e1: "(2::real) powi (int ?b - 1) = 2 ^ (?b - 1)"
    using b by (simp add: power_int_def of_nat_diff)
  have e2: "(2::real) powi (int ?b - 1 + 1) = 2 ^ ?b"
    by (simp add: power_int_def)
  have "(2::real) ^ (?b - 1) \<le> of_int ?N"
    using bb(1) by (metis of_int_le_iff of_int_numeral of_int_power)
  also have "\<dots> \<le> x" by simp
  finally have lo: "(2::real) ^ (?b - 1) \<le> x" .
  have "?N + 1 \<le> 2 ^ ?b" using bb(2) by simp
  then have "of_int (?N + 1) \<le> (2::real) ^ ?b"
    by (metis of_int_le_iff of_int_numeral of_int_power)
  moreover have "x < of_int (?N + 1)" by linarith
  ultimately have hi: "x < (2::real) ^ ?b" by linarith
  show ?thesis
    using lo hi by (simp only: il e1 e2)
next
  case False
  let ?y = "1 / x"
  let ?M = "\<lceil>?y\<rceil> - 1"
  let ?b = "bit_length ?M"
  have x1: "x < 1" using False by simp
  have y1: "1 < ?y" using assms x1 by simp
  have My: "of_int ?M < ?y" "?y \<le> of_int ?M + 1"
    by linarith+
  have M: "0 < ?M" using y1 by linarith
  have b: "0 < ?b" using M by (rule bit_length_pos)
  have bb: "2 ^ (?b - 1) \<le> ?M" "?M < 2 ^ ?b"
    using bit_length_bounds [OF M] by simp_all
  have il: "ilog2 x = - int ?b"
    using False by (simp add: ilog2_def)
  have e1: "(2::real) powi (- int ?b) = 1 / 2 ^ ?b"
    by (simp add: power_int_def field_simps)
  have e2: "(2::real) powi (- int ?b + 1) = 1 / 2 ^ (?b - 1)"
  proof -
    from b obtain k where k: "?b = Suc k"
      by (cases ?b) auto
    have "(2::real) powi (- int (Suc k) + 1) = 1 / 2 ^ k"
      by (simp add: power_int_def field_simps)
    then show ?thesis
      by (simp add: k)
  qed
  have "?M + 1 \<le> 2 ^ ?b" using bb(2) by simp
  then have "of_int (?M + 1) \<le> (2::real) ^ ?b"
    by (metis of_int_le_iff of_int_numeral of_int_power)
  then have "of_int ?M + 1 \<le> (2::real) ^ ?b"
    by (simp only: of_int_add of_int_1)
  then have "?y \<le> 2 ^ ?b" using My(2) by linarith
  then have lo: "1 / 2 ^ ?b \<le> x"
    using assms by (simp add: field_simps)
  have "(2::real) ^ (?b - 1) \<le> of_int ?M"
    using bb(1) by (metis of_int_le_iff of_int_numeral of_int_power)
  then have "(2::real) ^ (?b - 1) < ?y" using My(1) by linarith
  then have hi: "x < 1 / 2 ^ (?b - 1)"
    using assms by (simp add: field_simps)
  show ?thesis
    using lo hi by (simp only: il e1 e2)
qed

lemma round_half_even_le: "x \<le> of_int m \<Longrightarrow> round_half_even x \<le> m"
proof -
  assume a: "x \<le> of_int m"
  have "\<lfloor>x\<rfloor> \<le> m" using a by (simp add: floor_le_iff)
  moreover have "\<lfloor>x\<rfloor> = m \<Longrightarrow> x - of_int \<lfloor>x\<rfloor> < 1 / 2"
    using a by simp
  ultimately show ?thesis
    unfolding round_half_even_def Let_def by (auto; linarith)
qed

lemma round_half_even_ge: "of_int m \<le> x \<Longrightarrow> m \<le> round_half_even x"
proof -
  assume a: "of_int m \<le> x"
  have "m \<le> \<lfloor>x\<rfloor>" using a by (simp add: le_floor_iff)
  then show ?thesis
    unfolding round_half_even_def Let_def by auto
qed

lemma round_half_even_less: "x < of_int m - 1 / 2 \<Longrightarrow> round_half_even x < m"
proof -
  assume a: "x < of_int m - 1 / 2"
  have f: "\<lfloor>x\<rfloor> < m" using a by (simp add: floor_less_iff)
  have "\<lfloor>x\<rfloor> = m - 1 \<Longrightarrow> x - of_int \<lfloor>x\<rfloor> < 1 / 2"
    using a by simp
  then show ?thesis
    using f unfolding round_half_even_def Let_def by (auto; linarith)
qed

lemma powi_nonpos_recip:
  assumes "e \<le> 0"
  shows "(2::real) powi e * of_int (2 ^ nat (- e)) = 1"
proof -
  have "(2::real) powi e * 2 powi (- e) = 2 powi (e + - e)"
    by (rule power_int_add [symmetric]) simp
  moreover have "(2::real) powi (- e) = 2 ^ nat (- e)"
    using assms by (simp add: power_int_nonneg_exp)
  ultimately show ?thesis by simp
qed

lemma ilog2_less:
  assumes "0 < x" and "x < 2 powi m"
  shows "ilog2 x < m"
proof (rule ccontr)
  assume "\<not> ilog2 x < m"
  then have "m \<le> ilog2 x" by simp
  then have "(2::real) powi m \<le> 2 powi (ilog2 x)"
    by (rule power_int_increasing) simp
  with ilog2_bounds [OF assms(1)] assms(2) show False by linarith
qed

lemma ilog2_ge:
  assumes "0 < x" and "2 powi m \<le> x"
  shows "m \<le> ilog2 x"
proof (rule ccontr)
  assume "\<not> m \<le> ilog2 x"
  then have "ilog2 x + 1 \<le> m" by simp
  then have "(2::real) powi (ilog2 x + 1) \<le> 2 powi m"
    by (rule power_int_increasing) simp
  with ilog2_bounds [OF assms(1)] assms(2) show False by linarith
qed

lemma to_double_small:
  assumes "0 < q" and "q < 1 / 2"
  shows "0 \<le> to_double q \<and> to_double q \<le> 1 / 2"
proof -
  define E where "E = max (ilog2 \<bar>q\<bar> - 52) (- 1074)"
  define u :: real where "u = 2 powi E"
  have u: "ulp q = u" by (simp add: ulp_def u_def E_def)
  have u0: "0 < u" by (simp add: u_def)
  have "q < 2 powi (- 1)" using assms(2) by simp
  then have "ilog2 q < - 1" using assms(1) by (rule ilog2_less [rotated])
  then have E: "E \<le> - 54" using assms(1) by (simp add: E_def)
  define w :: int where "w = 2 ^ nat (- (E + 1))"
  have "(2::real) powi (E + 1) * of_int (2 ^ nat (- (E + 1))) = 1"
    using E by (intro powi_nonpos_recip) simp
  moreover have "(2::real) powi (E + 1) = 2 * u"
    by (simp add: u_def power_int_add)
  ultimately have uw: "u * of_int w = 1 / 2"
    by (simp add: w_def algebra_simps)
  have "q / u \<le> of_int w"
  proof -
    have "q \<le> u * of_int w" using assms(2) uw by simp
    then show ?thesis using u0 by (simp add: field_simps)
  qed
  then have hi: "round_half_even (q / u) \<le> w" by (rule round_half_even_le)
  have "of_int 0 \<le> q / u" using assms(1) u0 by simp
  then have lo: "0 \<le> round_half_even (q / u)" by (rule round_half_even_ge)
  have td: "to_double q = u * of_int (round_half_even (q / u))"
    using assms(1) by (simp add: to_double_def u)
  have "(of_int (round_half_even (q / u)) :: real) \<le> of_int w"
    using hi by (simp only: of_int_le_iff)
  then have "u * of_int (round_half_even (q / u)) \<le> u * of_int w"
    using u0 by (intro mult_left_mono) simp_all
  moreover have "0 \<le> u * of_int (round_half_even (q / u))"
    using lo u0 by simp
  ultimately show ?thesis using uw td by linarith
qed

lemma floor_to_double_quotient:
  fixes r :: real and c k e :: int
  assumes e: "e \<le> 0"
    and r: "r = of_int k * 2 powi e"
    and r0: "0 \<le> r"
    and fine: "r < 2 ^ 53 * 2 powi e"
    and small: "r < 2 ^ 53"
    and c: "1 \<le> c"
  shows "\<lfloor>to_double (r / of_int c)\<rfloor> = \<lfloor>r / of_int c\<rfloor>"
proof -
  define q where "q = r / of_int c"
  define n where "n = \<lfloor>q\<rfloor>"
  have c0: "(0::real) < of_int c" using c by simp
  have q0: "0 \<le> q" using r0 c0 by (simp add: q_def)
  have qr: "q \<le> r"
  proof -
    have "r / of_int c \<le> r / 1"
      using r0 c by (intro divide_left_mono) simp_all
    then show ?thesis by (simp add: q_def)
  qed
  have n0: "0 \<le> n" using q0 by (simp add: n_def)
  have nq: "of_int n \<le> q" "q < of_int n + 1"
    unfolding n_def by linarith+
  consider "q = 0" | "0 < q" "q < 1 / 2" | "1 / 2 \<le> q"
    using q0 by linarith
  then have "\<lfloor>to_double q\<rfloor> = n"
  proof cases
    case 1
    then show ?thesis by (simp add: to_double_def n_def)
  next
    case 2
    from to_double_small [OF 2] have "\<lfloor>to_double q\<rfloor> = 0"
      by (intro floor_unique) simp_all
    moreover have "n = 0" using 2 unfolding n_def by (intro floor_unique) simp_all
    ultimately show ?thesis by simp
  next
    case 3
    then have qpos: "0 < q" by simp
    define u :: real where "u = 2 powi (ilog2 q - 52)"
    have "2 powi (- 1) \<le> q" using 3 by simp
    then have il1: "- 1 \<le> ilog2 q" using qpos by (rule ilog2_ge [rotated])
    have "q < 2 powi 53" using qr small by simp
    then have il2: "ilog2 q < 53" using qpos by (rule ilog2_less [rotated])
    have u: "ulp q = u"
      using il1 qpos by (simp add: ulp_def u_def)
    have u0: "0 < u" by (simp add: u_def)
    define w :: int where "w = 2 ^ nat (- (ilog2 q - 52))"
    have uw: "u * of_int w = 1"
      unfolding u_def w_def using il2 by (intro powi_nonpos_recip) simp
    have td: "to_double q = u * of_int (round_half_even (q / u))"
      using qpos by (simp add: to_double_def u)
    \<comment> \<open>lower bound\<close>
    have "of_int (n * w) \<le> q / u"
    proof -
      have "of_int n * (u * of_int w) \<le> q" using nq(1) uw by simp
      then show ?thesis using u0 by (simp add: field_simps)
    qed
    then have "n * w \<le> round_half_even (q / u)" by (rule round_half_even_ge)
    then have "(of_int (n * w) :: real) \<le> of_int (round_half_even (q / u))"
      by (simp only: of_int_le_iff)
    then have "u * of_int (n * w) \<le> u * of_int (round_half_even (q / u))"
      using u0 by (intro mult_left_mono) simp_all
    moreover have "u * of_int (n * w) = of_int n"
      using uw by (simp add: algebra_simps)
    ultimately have lo: "of_int n \<le> to_double q" using td by linarith
    \<comment> \<open>upper bound\<close>
    define g :: real where "g = 2 powi e"
    define v :: int where "v = 2 ^ nat (- e)"
    have g0: "0 < g" by (simp add: g_def)
    have gv: "g * of_int v = 1"
      unfolding g_def v_def using e by (rule powi_nonpos_recip)
    have "r < of_int c * (of_int n + 1)"
      using nq(2) c0 by (simp add: q_def field_simps)
    then have "0 < of_int c * (of_int n + 1) - r" by simp
    moreover have "of_int c * (of_int n + 1) - r = of_int (c * (n + 1) * v - k) * g"
    proof -
      have r': "r = of_int k * g"
        using r by (simp add: g_def)
      have "of_int (c * (n + 1) * v - k) * g =
          of_int c * (of_int n + 1) * (g * of_int v) - of_int k * g"
        by (simp add: algebra_simps)
      also have "\<dots> = of_int c * (of_int n + 1) - r"
        by (simp only: gv r' mult_1_right)
      finally show ?thesis by simp
    qed
    ultimately have "0 < of_int (c * (n + 1) * v - k) * g" by simp
    then have "(0::real) < of_int (c * (n + 1) * v - k)"
      using g0 by (rule zero_less_mult_pos2)
    then have "0 < c * (n + 1) * v - k"
      by (simp only: of_int_0_less_iff)
    then have "1 \<le> c * (n + 1) * v - k"
      by simp
    then have "(1::real) \<le> of_int (c * (n + 1) * v - k)"
      by (simp only: of_int_1_le_iff)
    then have "g \<le> of_int (c * (n + 1) * v - k) * g"
      using g0 by simp
    then have gap: "g \<le> of_int c * (of_int n + 1) - r"
      using \<open>of_int c * (of_int n + 1) - r = of_int (c * (n + 1) * v - k) * g\<close> by simp
    have gr: "r / 2 ^ 53 < g"
      using fine by (simp add: g_def field_simps)
    have uq: "u \<le> q / 2 ^ 52"
    proof -
      have "u = 2 powi (ilog2 q) / 2 powi 52"
        unfolding u_def by (rule power_int_diff) simp
      moreover have "2 powi (ilog2 q) \<le> q"
        using ilog2_bounds [OF qpos] by simp
      ultimately show ?thesis by (simp add: divide_right_mono)
    qed
    have "q / 2 ^ 53 < g / of_int c"
    proof -
      have "r / 2 ^ 53 / of_int c < g / of_int c"
        using gr c0 by (rule divide_strict_right_mono)
      then show ?thesis by (simp add: q_def field_simps)
    qed
    moreover have "g / of_int c \<le> of_int n + 1 - q"
    proof -
      have "g / of_int c \<le> (of_int c * (of_int n + 1) - r) / of_int c"
        using gap c0 by (simp add: divide_right_mono)
      also have "\<dots> = of_int n + 1 - q"
        using c0 by (simp add: q_def field_simps)
      finally show ?thesis .
    qed
    moreover have "u / 2 \<le> q / 2 ^ 53"
      using uq by simp
    ultimately have half: "u / 2 < of_int n + 1 - q" by linarith
    have "q / u < of_int ((n + 1) * w) - 1 / 2"
    proof -
      have "q < (of_int n + 1) * (u * of_int w) - u / 2"
        using half uw by simp
      then have "q < u * (of_int ((n + 1) * w) - 1 / 2)"
        by (simp add: algebra_simps)
      then show ?thesis using u0 by (simp add: field_simps)
    qed
    then have "round_half_even (q / u) < (n + 1) * w" by (rule round_half_even_less)
    then have "of_int (round_half_even (q / u)) < (of_int ((n + 1) * w) :: real)"
      by (simp only: of_int_less_iff)
    then have "u * of_int (round_half_even (q / u)) < u * of_int ((n + 1) * w)"
      using u0 by (intro mult_strict_left_mono) simp_all
    moreover have "u * of_int ((n + 1) * w) = of_int n + 1"
      using uw by (simp add: algebra_simps)
    ultimately have hi: "to_double q < of_int n + 1" using td by linarith
    show ?thesis using lo hi by (rule floor_unique)
  qed
  then show ?thesis by (simp add: q_def n_def)
qed

subsection \<open>Hours, minutes and seconds of a non-negative double\<close>

lemma mod_3600_split: "(n::int) mod 3600 = 60 * (n div 60 mod 60) + n mod 60"
  using zmod_zmult2_eq [of 60 n 60] by simp

lemma minutes_of_remainder: "((n::int) - 3600 * (n div 3600)) div 60 = n div 60 mod 60"
proof -
  have "n - 3600 * (n div 3600) = n mod 3600"
    by (simp add: minus_mult_div_eq_mod)
  then have "(n - 3600 * (n div 3600)) div 60 = (60 * (n div 60 mod 60) + n mod 60) div 60"
    by (simp only: mod_3600_split)
  also have "\<dots> = n div 60 mod 60"
    by simp
  finally show ?thesis .
qed

lemma seconds_of_remainder: "(n::int) - 60 * (n div 60) = n mod 60"
  by (simp add: minus_mult_div_eq_mod)

lemma hms_sum: "3600 * ((n::int) div 3600) + 60 * (n div 60 mod 60) + n mod 60 = n"
  using mod_3600_split [of n] mult_div_mod_eq [of 3600 n] by linarith

lemma js_rem_nonneg:
  assumes "0 \<le> x" and "0 < n"
  shows "js_rem x (of_int n) = x - of_int (n * (\<lfloor>x\<rfloor> div n))"
proof -
  have "0 \<le> x / of_int n"
    using assms by simp
  then have "js_trunc (x / of_int n) = \<lfloor>x / of_int n\<rfloor>"
    by (simp add: js_trunc_def)
  also have "\<dots> = \<lfloor>x\<rfloor> div n"
    using assms by (simp add: floor_divide_real_eq_div)
  finally show ?thesis
    by (simp add: js_rem_def)
qed

text \<open>A double below \<open>2\<^sup>5\<^sup>3\<close> is a whole multiple of a power of two that is at most 1
  and more than \<open>2\<^sup>-\<^sup>5\<^sup>3\<close> times the double.\<close>

lemma double_granule:
  assumes "to_double s = s" and "0 \<le> s" and "s < 2 ^ 53"
  obtains k e where "e \<le> 0" and "s = of_int k * 2 powi e" and "s < 2 ^ 53 * 2 powi e"
proof (cases "s = 0")
  case True
  then have "(0::int) \<le> 0" "s = of_int 0 * 2 powi 0" "s < 2 ^ 53 * 2 powi 0"
    by simp_all
  then show ?thesis by (rule that)
next
  case False
  with assms(2) have pos: "0 < s" by simp
  define e where "e = max (ilog2 s - 52) (- 1074)"
  define k where "k = round_half_even (s / ulp s)"
  have u: "ulp s = 2 powi e"
    using pos by (simp add: ulp_def e_def)
  have "s < 2 powi 53" using assms(3) by simp
  then have il: "ilog2 s < 53" using pos by (rule ilog2_less [rotated])
  then have e: "e \<le> 0" by (simp add: e_def)
  have "s = ulp s * of_int k"
    using assms(1) False by (simp add: to_double_def k_def)
  then have rep: "s = of_int k * 2 powi e"
    by (simp add: u mult.commute)
  have "s < 2 powi (ilog2 s + 1)"
    using ilog2_bounds [OF pos] by simp
  also have "(2::real) powi (ilog2 s + 1) = 2 powi 53 * 2 powi (ilog2 s - 52)"
  proof -
    have "(2::real) powi (53 + (ilog2 s - 52)) = 2 powi 53 * 2 powi (ilog2 s - 52)"
      by (rule power_int_add) simp
    then show ?thesis by (simp add: algebra_simps)
  qed
  also have "\<dots> \<le> 2 powi 53 * 2 powi e"
  proof -
    have "(2::real) powi (ilog2 s - 52) \<le> 2 powi e"
      by (rule power_int_increasing) (simp_all add: e_def)
    then show ?thesis by simp
  qed
  finally have "s < 2 ^ 53 * 2 powi e" by simp
  with e rep show ?thesis by (rule that)
qed

lemma hours_eq:
  assumes "to_double s = s" and "0 \<le> s" and "s < 2 ^ 53"
  shows "Math_floor (js_div s 3600) = \<lfloor>s\<rfloor> div 3600"
proof -
  from assms obtain k e where ke: "e \<le> 0" "s = of_int k * 2 powi e" "s < 2 ^ 53 * 2 powi e"
    by (rule double_granule)
  have "\<lfloor>to_double (s / of_int 3600)\<rfloor> = \<lfloor>s / of_int 3600\<rfloor>"
    using ke(1) ke(2) assms(2) ke(3) assms(3) by (rule floor_to_double_quotient) simp
  moreover have "\<lfloor>s / of_int 3600\<rfloor> = \<lfloor>s\<rfloor> div 3600"
    by (rule floor_divide_real_eq_div) simp
  ultimately show ?thesis
    by (simp add: Math_floor_def js_div_def)
qed

lemma minutes_eq:
  assumes "to_double s = s" and "0 \<le> s" and "s < 2 ^ 53"
  shows "Math_floor (js_div (js_rem s 3600) 60) = \<lfloor>s\<rfloor> div 60 mod 60"
proof -
  from assms obtain k e where ke: "e \<le> 0" "s = of_int k * 2 powi e" "s < 2 ^ 53 * 2 powi e"
    by (rule double_granule)
  define n where "n = \<lfloor>s\<rfloor> div 3600"
  define v :: int where "v = 2 ^ nat (- e)"
  define r where "r = s - of_int (3600 * n)"
  have gv: "(2::real) powi e * of_int v = 1"
    unfolding v_def using ke(1) by (rule powi_nonpos_recip)
  have rem: "js_rem s 3600 = r"
    using js_rem_nonneg [OF assms(2), of 3600] by (simp add: r_def n_def)
  have n0: "0 \<le> n"
    using assms(2) by (simp add: n_def pos_imp_zdiv_nonneg_iff)
  have "3600 * n \<le> \<lfloor>s\<rfloor>"
    unfolding n_def by (simp add: mult.commute [of 3600])
  then have "of_int (3600 * n) \<le> s"
    by (simp only: le_floor_iff)
  then have r0: "0 \<le> r" by (simp add: r_def)
  have rs: "r \<le> s" using n0 by (simp add: r_def)
  have rep: "r = of_int (k - 3600 * n * v) * 2 powi e"
  proof -
    have "of_int (k - 3600 * n * v) * (2::real) powi e =
        of_int k * 2 powi e - of_int (3600 * n) * (2 powi e * of_int v)"
      by (simp add: algebra_simps)
    also have "\<dots> = r"
      by (simp only: gv mult_1_right r_def ke(2) [symmetric])
    finally show ?thesis by simp
  qed
  have "r < 2 ^ 53 * 2 powi e" using rs ke(3) by linarith
  moreover have "r < 2 ^ 53" using rs assms(3) by linarith
  ultimately have "\<lfloor>to_double (r / of_int 60)\<rfloor> = \<lfloor>r / of_int 60\<rfloor>"
    using ke(1) rep r0 by (intro floor_to_double_quotient [of e r "k - 3600 * n * v" 60]) simp_all
  moreover have "\<lfloor>r / of_int 60\<rfloor> = \<lfloor>r\<rfloor> div 60"
    by (rule floor_divide_real_eq_div) simp
  moreover have "\<lfloor>r\<rfloor> = \<lfloor>s\<rfloor> - 3600 * n"
    unfolding r_def by (simp only: floor_diff_of_int)
  moreover have "(\<lfloor>s\<rfloor> - 3600 * n) div 60 = \<lfloor>s\<rfloor> div 60 mod 60"
    unfolding n_def by (rule minutes_of_remainder)
  ultimately show ?thesis
    by (simp add: Math_floor_def js_div_def rem)
qed

lemma secs_eq:
  assumes "0 \<le> s"
  shows "Math_floor (js_rem s 60) = \<lfloor>s\<rfloor> mod 60"
proof -
  have "js_rem s 60 = s - of_int (60 * (\<lfloor>s\<rfloor> div 60))"
    using js_rem_nonneg [OF assms, of 60] by simp
  then have "Math_floor (js_rem s 60) = \<lfloor>s - of_int (60 * (\<lfloor>s\<rfloor> div 60))\<rfloor>"
    by (simp add: Math_floor_def)
  also have "\<dots> = \<lfloor>s\<rfloor> - 60 * (\<lfloor>s\<rfloor> div 60)"
    by (simp only: floor_diff_of_int)
  also have "\<dots> = \<lfloor>s\<rfloor> mod 60"
    by (rule seconds_of_remainder)
  finally show ?thesis .
qed

lemmas sample_defs = sample_process_def sample_process_later_def sample_health_def
  sample_info_def sample_state_def health_response_def info_response_def
  info_response_failed_def info_response_malformed_def message_response_def browser_ok_def
  browser_info_failed_def browser_network_down_def browser_malformed_def browser_hung_def

lemmas fetchData_defs = fetchData_cases fetchData_try_def Promise_all_def async_defs


section \<open>The refresh cycle\<close>



text \<open>
  Claim C2, as stated, fails. A failed cycle does not always show one fixed string:
  with the network down the cycle shows the message of the error that \<^verbatim>\<open>fetch\<close>
  threw, with a body that is not JSON the message of the parser's error, and with a
  failure status the message the cycle itself throws.
\<close>

theorem fetchData_error_not_one_string:
  "error (snd (fetchData browser_network_down undisturbed sample_state)) =
     Some ''Failed to fetch'' \<and>
   error (snd (fetchData browser_malformed undisturbed sample_state)) =
     Some ''Unexpected token < in JSON at position 0'' \<and>
   error (snd (fetchData browser_info_failed undisturbed sample_state)) =
     Some ''Failed to fetch data from backend''"
  by (simp add: fetchData_defs sample_defs undisturbed_def)

text \<open>
  Claim C2, amended. No cycle rethrows: a call of \<open>fetchData\<close> never completes by a
  throw. When the \<^verbatim>\<open>try\<close> block throws, whatever the kind of failure, the cycle
  completes normally, writes only \<open>error\<close> and \<open>loading\<close> into the state in which
  the throw finds it, and shows the thrown error's own message, or
  \<^verbatim>\<open>Unknown error occurred\<close> when the thrown value is not an \<^verbatim>\<open>Error\<close>; in a cycle
  that no other callback overlaps no data field changes. For a failure status the
  thrown error is the cycle's own, with the message
  \<^verbatim>\<open>Failed to fetch data from backend\<close>.
\<close>

theorem fetchData_error_display:
  "(\<forall>v. fst (fetchData b others s) \<noteq> Throw v) \<and>
   (\<forall>v. fst (fetchData_try b others (s\<lparr>loading := True, error := None\<rparr>)) = Throw v \<longrightarrow>
      fetchData b others s =
        (Normal (),
         (snd (fetchData_try b others (s\<lparr>loading := True, error := None\<rparr>)))
           \<lparr>error := Some (error_text v), loading := False\<rparr>)) \<and>
   (\<forall>v. fst (fetchData_try b undisturbed (s\<lparr>loading := True, error := None\<rparr>)) = Throw v \<longrightarrow>
      fetchData b undisturbed s =
        (Normal (), s\<lparr>loading := False, error := Some (error_text v)\<rparr>)) \<and>
   (\<forall>healthRes infoRes messageRes.
      fetch_api_health b = Fulfilled healthRes \<and> fetch_api_info b = Fulfilled infoRes \<and>
      fetch_api b = Fulfilled messageRes \<and>
      (\<not> ok healthRes \<or> \<not> ok infoRes \<or> \<not> ok messageRes) \<longrightarrow>
      fst (fetchData_try b others (s\<lparr>loading := True, error := None\<rparr>)) =
        Throw (Error_instance ''Failed to fetch data from backend''))"
proof (intro conjI allI impI)
  fix v
  show "fst (fetchData b others s) \<noteq> Throw v"
    by (simp add: fetchData_cases split: prod.splits completion.splits)
next
  fix v
  assume "fst (fetchData_try b others (s\<lparr>loading := True, error := None\<rparr>)) = Throw v"
  then show "fetchData b others s =
      (Normal (),
       (snd (fetchData_try b others (s\<lparr>loading := True, error := None\<rparr>)))
         \<lparr>error := Some (error_text v), loading := False\<rparr>)"
    by (rule fetchData_of_throw)
next
  fix v
  assume "fst (fetchData_try b undisturbed (s\<lparr>loading := True, error := None\<rparr>)) = Throw v"
  then show "fetchData b undisturbed s =
      (Normal (), s\<lparr>loading := False, error := Some (error_text v)\<rparr>)"
    by (rule fetchData_of_throw_undisturbed)
next
  fix healthRes infoRes messageRes
  assume "fetch_api_health b = Fulfilled healthRes \<and> fetch_api_info b = Fulfilled infoRes \<and>
      fetch_api b = Fulfilled messageRes \<and>
      (\<not> ok healthRes \<or> \<not> ok infoRes \<or> \<not> ok messageRes)"
  then show "fst (fetchData_try b others (s\<lparr>loading := True, error := None\<rparr>)) =
        Throw (Error_instance ''Failed to fetch data from backend'')"
    using fetchData_try_not_ok [of b healthRes infoRes messageRes] by simp
qed

text \<open>
  The network is down: the \<^verbatim>\<open>try\<close> block throws the error of the request that was
  rejected first, and the cycle shows its message. The info endpoint answers with a
  failure status: the block throws the cycle's own error.
\<close>

theorem fetchData_error_display_witness:
  "fst (fetchData_try browser_network_down undisturbed
      (sample_state\<lparr>loading := True, error := None\<rparr>)) =
     Throw (Error_instance ''Failed to fetch'') \<and>
   fetchData browser_network_down undisturbed sample_state =
     (Normal (), sample_state\<lparr>loading := False, error := Some ''Failed to fetch''\<rparr>) \<and>
   fetch_api_health browser_info_failed = Fulfilled health_response \<and>
   fetch_api_info browser_info_failed = Fulfilled info_response_failed \<and>
   fetch_api browser_info_failed = Fulfilled message_response \<and>
   \<not> ok info_response_failed \<and>
   fst (fetchData_try browser_info_failed undisturbed
      (sample_state\<lparr>loading := True, error := None\<rparr>)) =
     Throw (Error_instance ''Failed to fetch data from backend'')"
proof -
  have t: "fst (fetchData_try browser_network_down undisturbed
      (sample_state\<lparr>loading := True, error := None\<rparr>)) = Throw (Error_instance ''Failed to fetch'')"
    by (simp add: fetchData_try_def Promise_all_def async_defs browser_network_down_def)
  have h: "fetch_api_health browser_info_failed = Fulfilled health_response \<and>
    fetch_api_info browser_info_failed = Fulfilled info_response_failed \<and>
    fetch_api browser_info_failed = Fulfilled message_response \<and>
    (\<not> ok health_response \<or> \<not> ok info_response_failed \<or> \<not> ok message_response)"
    by (simp add: browser_info_failed_def info_response_failed_def)
  have n: "\<not> ok info_response_failed"
    by (simp add: info_response_failed_def)
  show ?thesis
    using t h n fetchData_error_display [of browser_network_down undisturbed sample_state]
      fetchData_error_display [of browser_info_failed undisturbed sample_state]
    by auto
qed

text \<open>
  Claim C3, as stated, fails. The cycle clears \<open>error\<close> only at its start (line 29),
  before its first \<^verbatim>\<open>await\<close>; the success path (lines 46 to 49) does not write it.
  When a second cycle starts while the first one waits for its responses and fails
  before they arrive, the first cycle, all three of whose responses succeed and
  parse, ends with fresh data and with \<open>error\<close> set.
\<close>

theorem fetchData_success_keeps_error:
  "fetchData browser_ok (overlapped_by browser_info_failed) sample_state =
     (Normal (),
      \<lparr>health = Some sample_health, info = Some sample_info, message = ''hi'',
       loading = False, error = Some ''Failed to fetch data from backend'',
       lastRefresh = 2000\<rparr>)"
  by (simp add: fetchData_defs sample_defs overlapped_by_def undisturbed_def)

text \<open>
  Claim C3, amended. When the three requests are answered with a success status and
  the three bodies are read, the cycle comes to its end with \<open>health\<close>, \<open>info\<close> and
  \<open>message\<close> set together to the values just read, \<open>lastRefresh\<close> set to the current
  instant and \<open>loading\<close> false, and after its start it does not write \<open>error\<close>, which
  is as the other callbacks leave it. In a cycle that no other callback overlaps,
  \<open>error\<close> is absent at the end.
\<close>

theorem fetchData_success:
  assumes "fetch_api_health b = Fulfilled healthRes"
    and "fetch_api_info b = Fulfilled infoRes"
    and "fetch_api b = Fulfilled messageRes"
    and "ok healthRes" and "ok infoRes" and "ok messageRes"
    and "json healthRes = Fulfilled healthData"
    and "json infoRes = Fulfilled infoData"
    and "text_body messageRes = Fulfilled messageData"
  shows "fetchData b others s =
      (Normal (),
       (others 3 (others 2 (others 1 (others 0 (s\<lparr>loading := True, error := None\<rparr>)))))
         \<lparr>health := healthData, info := infoData, message := messageData,
          lastRefresh := date_now b, loading := False\<rparr>) \<and>
    fetchData b undisturbed s =
      (Normal (),
       \<lparr>health = healthData, info = infoData, message = messageData, loading = False,
        error = None, lastRefresh = date_now b\<rparr>)"
proof -
  have "fetchData b w s =
      (Normal (),
       (w 3 (w 2 (w 1 (w 0 (s\<lparr>loading := True, error := None\<rparr>)))))
         \<lparr>health := healthData, info := infoData, message := messageData,
          lastRefresh := date_now b, loading := False\<rparr>)" for w
    by (simp add: fetchData_cases fetchData_try_ok [OF assms])
  then show ?thesis
    by (simp add: undisturbed_def)
qed

theorem fetchData_success_witness:
  "fetch_api_health browser_ok = Fulfilled health_response \<and>
   fetch_api_info browser_ok = Fulfilled info_response \<and>
   fetch_api browser_ok = Fulfilled message_response \<and>
   ok health_response \<and> ok info_response \<and> ok message_response \<and>
   json health_response = Fulfilled (Some sample_health) \<and>
   json info_response = Fulfilled (Some sample_info) \<and>
   text_body message_response = Fulfilled ''hi'' \<and>
   fetchData browser_ok undisturbed sample_state =
     (Normal (),
      \<lparr>health = Some sample_health, info = Some sample_info, message = ''hi'',
       loading = False, error = None, lastRefresh = 2000\<rparr>)"
proof -
  have h: "fetch_api_health browser_ok = Fulfilled health_response"
    "fetch_api_info browser_ok = Fulfilled info_response"
    "fetch_api browser_ok = Fulfilled message_response"
    "ok health_response" "ok info_response" "ok message_response"
    "json health_response = Fulfilled (Some sample_health)"
    "json info_response = Fulfilled (Some sample_info)"
    "text_body message_response = Fulfilled ''hi''"
    by (simp_all add: browser_ok_def health_response_def info_response_def
        message_response_def)
  have d: "date_now browser_ok = 2000"
    by (simp add: browser_ok_def)
  show ?thesis
    using h d fetchData_success [OF h, of undisturbed sample_state, THEN conjunct2] by simp
qed

text \<open>
  Claim C4 (the loading flag). A cycle begins by setting \<open>loading\<close> to true and
  clearing \<open>error\<close>: the \<^verbatim>\<open>try\<close> statement runs from the state so changed. A cycle
  that stays suspended at an \<^verbatim>\<open>await\<close> writes nothing more, and leaves exactly that
  state when no other callback overlaps it. A cycle whose \<^verbatim>\<open>try\<close> block comes to an
  end, by success or by a throw, completes normally with \<open>loading\<close> false, whatever
  the other callbacks have written.
\<close>

theorem fetchData_loading:
  "(let s0 = s\<lparr>loading := True, error := None\<rparr> in
     loading s0 = True \<and> error s0 = None \<and>
     fetchData b others s =
       try_finally (try_catch (fetchData_try b others) fetchData_catch) fetchData_finally s0 \<and>
     (fst (fetchData_try b others s0) = Suspended \<longrightarrow>
        fetchData b others s = (Suspended, snd (fetchData_try b others s0))) \<and>
     (fst (fetchData_try b undisturbed s0) = Suspended \<longrightarrow>
        fetchData b undisturbed s = (Suspended, s0)) \<and>
     (fst (fetchData_try b others s0) \<noteq> Suspended \<longrightarrow>
        fst (fetchData b others s) = Normal () \<and>
        loading (snd (fetchData b others s)) = False))"
  unfolding Let_def
  using fetchData_unfold [of b others s] fetchData_of_suspended [of b others s]
    fetchData_of_suspended_undisturbed [of b s] fetchData_of_ended [of b others s]
  by simp

text \<open>
  A cycle that succeeds, one that fails on a malformed body and one that succeeds
  while another cycle fails in between all end with \<open>loading\<close> false; a request that
  never returns leaves \<open>loading\<close> true.
\<close>

theorem fetchData_loading_witness:
  "fst (fetchData_try browser_ok undisturbed (sample_state\<lparr>loading := True, error := None\<rparr>))
     \<noteq> Suspended \<and>
   fst (fetchData browser_ok undisturbed sample_state) = Normal () \<and>
   loading (snd (fetchData browser_ok undisturbed sample_state)) = False \<and>
   fst (fetchData_try browser_malformed undisturbed
      (sample_state\<lparr>loading := True, error := None\<rparr>)) \<noteq> Suspended \<and>
   fst (fetchData browser_malformed undisturbed sample_state) = Normal () \<and>
   loading (snd (fetchData browser_malformed undisturbed sample_state)) = False \<and>
   fst (fetchData_try browser_ok (overlapped_by browser_info_failed)
      (sample_state\<lparr>loading := True, error := None\<rparr>)) \<noteq> Suspended \<and>
   fst (fetchData browser_ok (overlapped_by browser_info_failed) sample_state) = Normal () \<and>
   loading (snd (fetchData browser_ok (overlapped_by browser_info_failed) sample_state)) =
     False \<and>
   fst (fetchData_try browser_hung undisturbed
      (sample_state\<lparr>loading := True, error := None\<rparr>)) = Suspended \<and>
   fetchData browser_hung undisturbed sample_state =
     (Suspended, sample_state\<lparr>loading := True, error := None\<rparr>)"
proof -
  have a: "fst (fetchData_try browser_ok undisturbed
      (sample_state\<lparr>loading := True, error := None\<rparr>)) \<noteq> Suspended"
    by (simp add: fetchData_try_def Promise_all_def async_defs sample_defs)
  have b: "fst (fetchData_try browser_malformed undisturbed
      (sample_state\<lparr>loading := True, error := None\<rparr>)) \<noteq> Suspended"
    by (simp add: fetchData_try_def Promise_all_def async_defs sample_defs)
  have c: "fst (fetchData_try browser_hung undisturbed
      (sample_state\<lparr>loading := True, error := None\<rparr>)) = Suspended"
    by (simp add: fetchData_try_def Promise_all_def async_defs sample_defs)
  have d: "fst (fetchData_try browser_ok (overlapped_by browser_info_failed)
      (sample_state\<lparr>loading := True, error := None\<rparr>)) \<noteq> Suspended"
    using a fetchData_try_completion [of browser_ok "overlapped_by browser_info_failed"
        "sample_state\<lparr>loading := True, error := None\<rparr>" undisturbed
        "sample_state\<lparr>loading := True, error := None\<rparr>"]
    by simp
  show ?thesis
    using a b c d
      fetchData_loading [of sample_state browser_ok undisturbed, unfolded Let_def]
      fetchData_loading [of sample_state browser_malformed undisturbed, unfolded Let_def]
      fetchData_loading [of sample_state browser_ok "overlapped_by browser_info_failed",
        unfolded Let_def]
      fetchData_loading [of sample_state browser_hung undisturbed, unfolded Let_def]
    by blast
qed

section \<open>The backend endpoints\<close>

text \<open>
  Claim C5 (health snapshot). \<open>getHealth\<close> has no failure path: it returns a
  snapshot for every state of the process. The snapshot's status is the literal
  \<^verbatim>\<open>ok\<close>, and its uptime is not negative when the process's uptime counter is not.
\<close>

theorem getHealth_ok:
  assumes "0 \<le> process_uptime p"
  shows "\<exists>h. getHealth p = Inr h \<and> HealthSnapshot.status h = ''ok'' \<and>
    0 \<le> HealthSnapshot.uptime h"
  using assms by (simp add: getHealth_def new_Date_def)

theorem getHealth_ok_witness:
  "0 \<le> process_uptime sample_process \<and>
   getHealth sample_process =
     Inr \<lparr>HealthSnapshot.status = ''ok'', timestamp = ISO_8601 1704067200000, uptime = 12.5\<rparr>"
  using getHealth_ok [of sample_process]
  by (simp add: getHealth_def new_Date_def sample_process_def)

text \<open>
  Claim C6 (service info). Whatever the value of \<^verbatim>\<open>NODE_ENV\<close>, when the runtime's
  version string is not empty, none of the four fields that \<open>getInfo\<close> returns is
  the empty string.
\<close>

theorem getInfo_fields_nonempty:
  assumes "process_version p \<noteq> []"
  shows "name (getInfo p) \<noteq> [] \<and> version (getInfo p) \<noteq> [] \<and>
    environment (getInfo p) \<noteq> [] \<and> nodeVersion (getInfo p) \<noteq> []"
  using assms by (cases "NODE_ENV p") (simp_all add: getInfo_def)

theorem getInfo_fields_nonempty_witness:
  "process_version sample_process \<noteq> [] \<and>
   getInfo sample_process =
     \<lparr>name = ''K8s CI/CD Lab Backend'', version = ''1.0.0'', environment = ''production'',
      nodeVersion = ''v20.11.0''\<rparr>"
  using getInfo_fields_nonempty [of sample_process]
  by (simp add: getInfo_def sample_process_def)

text \<open>
  Claim C7 (idempotence of the read endpoints). Take two calls of the same endpoint,
  the second no earlier than the first by the clock and by the uptime counter, with
  \<^verbatim>\<open>NODE_ENV\<close> and the runtime version unchanged between them. The greeting and the
  service info are equal. Both health calls return a snapshot, the second snapshot is
  the first with only \<open>timestamp\<close> and \<open>uptime\<close> replaced, and neither of the two
  has decreased.
\<close>

theorem endpoints_idempotent:
  assumes "NODE_ENV p1 = NODE_ENV p2"
    and "process_version p1 = process_version p2"
    and "clock p1 \<le> clock p2"
    and "process_uptime p1 \<le> process_uptime p2"
  shows "AppController_getHello p1 = AppController_getHello p2 \<and>
    AppController_getInfo p1 = AppController_getInfo p2 \<and>
    (\<exists>h1 h2. AppController_getHealth p1 = Inr h1 \<and> AppController_getHealth p2 = Inr h2 \<and>
       h2 = h1\<lparr>HealthSnapshot.timestamp := HealthSnapshot.timestamp h2,
               HealthSnapshot.uptime := HealthSnapshot.uptime h2\<rparr> \<and>
       instant_of (HealthSnapshot.timestamp h1) \<le> instant_of (HealthSnapshot.timestamp h2) \<and>
       HealthSnapshot.uptime h1 \<le> HealthSnapshot.uptime h2)"
  using assms
  by (simp add: AppController_getHello_def AppController_getInfo_def
      AppController_getHealth_def getHello_def getInfo_def getHealth_def new_Date_def)

theorem endpoints_idempotent_witness:
  "NODE_ENV sample_process = NODE_ENV sample_process_later \<and>
   process_version sample_process = process_version sample_process_later \<and>
   clock sample_process \<le> clock sample_process_later \<and>
   process_uptime sample_process \<le> process_uptime sample_process_later \<and>
   AppController_getHello sample_process = AppController_getHello sample_process_later \<and>
   AppController_getInfo sample_process = AppController_getInfo sample_process_later \<and>
   AppController_getHealth sample_process =
     Inr \<lparr>HealthSnapshot.status = ''ok'', timestamp = ISO_8601 1704067200000, uptime = 12.5\<rparr> \<and>
   AppController_getHealth sample_process_later =
     Inr \<lparr>HealthSnapshot.status = ''ok'', timestamp = ISO_8601 1704067230000, uptime = 42.5\<rparr>"
proof -
  have h: "NODE_ENV sample_process = NODE_ENV sample_process_later"
    "process_version sample_process = process_version sample_process_later"
    "clock sample_process \<le> clock sample_process_later"
    "process_uptime sample_process \<le> process_uptime sample_process_later"
    by (simp_all add: sample_process_def sample_process_later_def)
  have g: "AppController_getHealth sample_process =
      Inr \<lparr>HealthSnapshot.status = ''ok'', timestamp = ISO_8601 1704067200000, uptime = 12.5\<rparr>"
    "AppController_getHealth sample_process_later =
      Inr \<lparr>HealthSnapshot.status = ''ok'', timestamp = ISO_8601 1704067230000, uptime = 42.5\<rparr>"
    by (simp_all add: AppController_getHealth_def getHealth_def new_Date_def
        sample_process_def sample_process_later_def)
  show ?thesis
    using h g endpoints_idempotent [OF h] by simp
qed

text \<open>
  Claim C10 (default environment). With \<^verbatim>\<open>NODE_ENV\<close> unset or set to the empty
  string, \<open>getInfo\<close> returns the environment \<^verbatim>\<open>development\<close>; and the environment
  it returns is never the empty string.
\<close>

theorem getInfo_environment_default:
  "(NODE_ENV p = None \<or> NODE_ENV p = Some [] \<longrightarrow>
      environment (getInfo p) = ''development'') \<and>
   environment (getInfo p) \<noteq> []"
  by (cases "NODE_ENV p") (auto simp add: getInfo_def)

theorem getInfo_environment_default_witness:
  "NODE_ENV (sample_process\<lparr>NODE_ENV := Some []\<rparr>) = Some [] \<and>
   environment (getInfo (sample_process\<lparr>NODE_ENV := Some []\<rparr>)) = ''development'' \<and>
   NODE_ENV (sample_process\<lparr>NODE_ENV := None\<rparr>) = None \<and>
   environment (getInfo (sample_process\<lparr>NODE_ENV := None\<rparr>)) = ''development''"
  using getInfo_environment_default [of "sample_process\<lparr>NODE_ENV := Some []\<rparr>"]
    getInfo_environment_default [of "sample_process\<lparr>NODE_ENV := None\<rparr>"]
  by simp

section \<open>Uptime formatting\<close>

text \<open>
  Claim C8. \<open>formatUptime\<close> maps 3661 seconds to the string \<^verbatim>\<open>1h 1m 1s\<close>.
\<close>

theorem formatUptime_3661: "formatUptime 3661 = ''1h 1m 1s''"
  by code_simp

text \<open>
  Claim C9, as stated, fails. The hours are the rounded quotient
  \<^verbatim>\<open>seconds / 3600\<close>, and from \<open>2\<^sup>5\<^sup>3\<close> seconds on the rounding can reach the next
  integer. At 288230376151717184 seconds, a double, the exact quotient is
  80063993375476.99\<dots>, the double nearest to it is 80063993375477, and the three parts
  printed add up to 3600 seconds more than the input.
\<close>

theorem formatUptime_exceeds:
  "to_double 288230376151717184 = 288230376151717184 \<and>
   formatUptime 288230376151717184 = ''80063993375477h 59m 44s'' \<and>
   \<lfloor>(288230376151717184::real) / 3600\<rfloor> = 80063993375476 \<and>
   3600 * 80063993375477 + 60 * 59 + 44 = \<lfloor>288230376151717184::real\<rfloor> + 3600 \<and>
   formatUptime 288230376151717184 \<noteq>
     Number_toString \<lfloor>(288230376151717184::real) / 3600\<rfloor> @ ''h '' @
     Number_toString 59 @ ''m '' @ Number_toString 44 @ ''s''"
  by code_simp

text \<open>
  Claim C9, amended. For a double \<open>s\<close> with \<open>0 \<le> s < 2\<^sup>5\<^sup>3\<close>, \<open>formatUptime\<close>
  returns the hours \<open>\<lfloor>s / 3600\<rfloor>\<close>, then \<^verbatim>\<open>h \<close>, the minutes, then \<^verbatim>\<open>m \<close>, the
  seconds, then \<^verbatim>\<open>s\<close>; the minutes and the seconds are integers from 0 to 59, and
  the three parts add up to \<open>\<lfloor>s\<rfloor>\<close> seconds.
\<close>

theorem formatUptime_components:
  assumes "to_double s = s" and "0 \<le> s" and "s < 2 ^ 53"
  shows "(let h = \<lfloor>s / 3600\<rfloor>; m = \<lfloor>s\<rfloor> div 60 mod 60; sec = \<lfloor>s\<rfloor> mod 60 in
     formatUptime s =
       Number_toString h @ ''h '' @ Number_toString m @ ''m '' @ Number_toString sec @ ''s'' \<and>
     0 \<le> m \<and> m \<le> 59 \<and> 0 \<le> sec \<and> sec \<le> 59 \<and>
     3600 * h + 60 * m + sec = \<lfloor>s\<rfloor>)"
proof -
  have h: "\<lfloor>s / 3600\<rfloor> = \<lfloor>s\<rfloor> div 3600"
    using floor_divide_real_eq_div [of 3600 s] by simp
  have fmt: "formatUptime s =
       Number_toString (\<lfloor>s\<rfloor> div 3600) @ ''h '' @
       Number_toString (\<lfloor>s\<rfloor> div 60 mod 60) @ ''m '' @
       Number_toString (\<lfloor>s\<rfloor> mod 60) @ ''s''"
    unfolding formatUptime_def Let_def
    by (simp only: hours_eq [OF assms] minutes_eq [OF assms] secs_eq [OF assms(2)])
  have sum: "3600 * (\<lfloor>s\<rfloor> div 3600) + 60 * (\<lfloor>s\<rfloor> div 60 mod 60) + \<lfloor>s\<rfloor> mod 60 = \<lfloor>s\<rfloor>"
    by (rule hms_sum)
  have bounds: "0 \<le> \<lfloor>s\<rfloor> div 60 mod 60" "\<lfloor>s\<rfloor> div 60 mod 60 \<le> 59"
    "0 \<le> \<lfloor>s\<rfloor> mod 60" "\<lfloor>s\<rfloor> mod 60 \<le> 59"
    by simp_all
  show ?thesis
    unfolding Let_def h using fmt sum bounds by simp
qed

theorem formatUptime_components_witness:
  "to_double 7384.25 = 7384.25 \<and> (0::real) \<le> 7384.25 \<and> (7384.25::real) < 2 ^ 53 \<and>
   formatUptime 7384.25 = ''2h 3m 4s''"
proof -
  have d: "to_double 7384.25 = 7384.25"
    by code_simp
  have b: "(0::real) \<le> 7384.25" "(7384.25::real) < 2 ^ 53"
    by simp_all
  have n: "Number_toString 2 = ''2''" "Number_toString 3 = ''3''" "Number_toString 4 = ''4''"
    by code_simp+
  show ?thesis
    using d b n formatUptime_components [OF d b] by (simp add: Let_def)
qed

end
